theory Spec2Isabelle
  imports Complex_Main "HOL-Library.Word" "HOL-Library.Signed_Division"
begin

section \<open>Machine integers of the Go sources\<close>

text \<open>
  Go's \<open>int\<close> is a 64-bit two's complement integer on the 64-bit targets: addition wraps
  around, comparison is signed, division truncates towards zero.
\<close>

type_synonym go_int = "64 word"

definition int_div :: "go_int \<Rightarrow> go_int \<Rightarrow> go_int" where
  "int_div a b = word_of_int (sint a sdiv sint b)"

definition int_rem :: "go_int \<Rightarrow> go_int \<Rightarrow> go_int" where
  "int_rem a b = word_of_int (sint a smod sint b)"

section \<open>common: error values\<close>

text \<open>
  \<open>ErrorResponse\<close> is the error the remote service reports; \<open>StatusCode\<close> carries the
  tag \<open>json:"-"\<close>, so no JSON decoder ever writes it.
\<close>

record ErrorResponse =
  ErrorKey :: string
  Field :: string
  Message :: string
  StatusCode :: go_int

text \<open>
  A Go \<open>error\<close> value is one of: a pointer to an \<open>ErrorResponse\<close>; a pointer to a
  \<open>ClientError\<close> (a message and an optional wrapped error); the plain message-only error
  that \<open>errors.New\<close> and \<open>fmt.Errorf\<close> (without a wrapping verb) build; or an error of a
  type declared in another package (encoding/json, io, net/url, net/http), named here by
  its message.
\<close>

datatype error =
    is_RemoteError: RemoteError ErrorResponse
  | is_ClientError: ClientError string "error option"
  | is_ErrorString: ErrorString string
  | is_ForeignError: ForeignError string

definition NewClientError :: "string \<Rightarrow> error option \<Rightarrow> error" where
  "NewClientError message e = ClientError message e"

section \<open>common/types.go: the response-side page\<close>

record 'a PaginatedResponse =
  Items :: "'a list"
  CurrentPage :: go_int
  TotalItems :: go_int
  HasMoreItems :: bool

section \<open>common/pagination.go: request-side paging\<close>

definition DefaultPage :: go_int where
  "DefaultPage = 1"

definition DefaultPerPage :: go_int where
  "DefaultPerPage = 100"

definition MaxPerPage :: go_int where
  "MaxPerPage = 1000"

record Pagination =
  Page :: go_int
  PerPage :: go_int

definition NewPagination :: Pagination where
  "NewPagination = \<lparr>Page = DefaultPage, PerPage = DefaultPerPage\<rparr>"

definition WithPage :: "Pagination \<Rightarrow> go_int \<Rightarrow> Pagination" where
  "WithPage p page =
     (let page = (if page <s 1 then DefaultPage else page)
      in p\<lparr>Page := page\<rparr>)"

definition WithPerPage :: "Pagination \<Rightarrow> go_int \<Rightarrow> Pagination" where
  "WithPerPage p perPage =
     (let perPage = (if perPage <s 1 then DefaultPerPage else perPage);
          perPage = (if MaxPerPage <s perPage then MaxPerPage else perPage)
      in p\<lparr>PerPage := perPage\<rparr>)"

record PageInfo =
  CurrentPage :: go_int
  TotalItems :: go_int
  HasMoreItems :: bool

definition TotalPages :: "PageInfo \<Rightarrow> go_int \<Rightarrow> go_int" where
  "TotalPages p perPage =
     (if perPage \<le>s 0 then 0
      else
        let totalPages = int_div (PageInfo.TotalItems p) perPage;
            totalPages = (if 0 <s int_rem (PageInfo.TotalItems p) perPage then totalPages + 1 else totalPages)
        in totalPages)"

section \<open>common/pagination.go: the page iterator\<close>

text \<open>
  The fetch function is a Go closure: it may read and change state of its own (a call
  counter, a connection), written \<open>'s\<close> here and passed through every call. It returns
  Go's pair of a response pointer (possibly nil) and an error (possibly nil).
\<close>

type_synonym ('a, 's) fetch =
  "'s \<Rightarrow> go_int \<Rightarrow> go_int \<Rightarrow> ('a PaginatedResponse option \<times> error option) \<times> 's"

record ('a, 's) PageIterator =
  client :: "('a, 's) fetch"
  pagination :: Pagination
  currentResponse :: "'a PaginatedResponse option"
  err :: "error option"

datatype panic = NilPointerDereference

definition NewPageIterator :: "('a, 's) fetch \<Rightarrow> go_int \<Rightarrow> go_int \<Rightarrow> ('a, 's) PageIterator" where
  "NewPageIterator c page perPage =
     \<lparr>client = c,
      pagination = WithPerPage (WithPage NewPagination page) perPage,
      currentResponse = None,
      err = None\<rparr>"

text \<open>
  \<open>Next\<close> returns its boolean together with the updated iterator and the updated state
  of the fetch function. Reading \<open>response.Items\<close> through a nil response (a fetch that
  returned neither a response nor an error) is a run-time panic.
\<close>

definition Next ::
  "('a, 's) PageIterator \<Rightarrow> 's \<Rightarrow> panic + (bool \<times> ('a, 's) PageIterator \<times> 's)" where
  "Next i s =
     (if err i \<noteq> None then Inr (False, i, s)
      else if (case currentResponse i of None \<Rightarrow> False
               | Some r \<Rightarrow> \<not> PaginatedResponse.HasMoreItems r) then Inr (False, i, s)
      else
        (case client i s (Page (pagination i)) (PerPage (pagination i)) of
           ((response, e), s') \<Rightarrow>
             if e \<noteq> None then Inr (False, i\<lparr>err := e\<rparr>, s')
             else
               let i = i\<lparr>currentResponse := response\<rparr>;
                   i = i\<lparr>pagination := (pagination i)\<lparr>Page := Page (pagination i) + 1\<rparr>\<rparr>
               in (case response of
                     None \<Rightarrow> Inl NilPointerDereference
                   | Some r \<Rightarrow> Inr (PaginatedResponse.Items r \<noteq> [], i, s'))))"

definition PageIterator_Items :: "('a, 's) PageIterator \<Rightarrow> 'a list" where
  "PageIterator_Items i =
     (case currentResponse i of None \<Rightarrow> [] | Some r \<Rightarrow> PaginatedResponse.Items r)"

definition Error :: "('a, 's) PageIterator \<Rightarrow> error option" where
  "Error i = err i"

definition Reset :: "('a, 's) PageIterator \<Rightarrow> ('a, 's) PageIterator" where
  "Reset i = i\<lparr>pagination := (pagination i)\<lparr>Page := DefaultPage\<rparr>,
              currentResponse := None,
              err := None\<rparr>"

text \<open>
  The loop of \<open>AllItems\<close> runs for as long as \<open>Next\<close> answers true, which a fetch function
  can make forever: the loop is a partial function, \<open>None\<close> when it does not return.
\<close>

partial_function (option) AllItems_loop ::
  "('a, 's) PageIterator \<Rightarrow> 's \<Rightarrow> 'a list
     \<Rightarrow> (panic + ('a list \<times> ('a, 's) PageIterator \<times> 's)) option" where
  "AllItems_loop i s allItems =
     (case Next i s of
        Inl p \<Rightarrow> Some (Inl p)
      | Inr (again, i', s') \<Rightarrow>
          if again then AllItems_loop i' s' (allItems @ PageIterator_Items i')
          else Some (Inr (allItems, i', s')))"

definition AllItems ::
  "('a, 's) PageIterator \<Rightarrow> 's
     \<Rightarrow> (panic + (('a list \<times> error option) \<times> ('a, 's) PageIterator \<times> 's)) option" where
  "AllItems i s =
     (case AllItems_loop (Reset i) s [] of
        None \<Rightarrow> None
      | Some (Inl p) \<Rightarrow> Some (Inl p)
      | Some (Inr (allItems, i', s')) \<Rightarrow>
          if Error i' \<noteq> None then Some (Inr (([], Error i'), i', s'))
          else Some (Inr ((allItems, None), i', s')))"

declare AllItems_loop.simps [code]

subsection \<open>The fetch functions and call sequences of the test suite\<close>

text \<open>
  \<open>TestPageIterator\<close> calls \<open>Next()\<close> a number of times in a row and reads \<open>Error()\<close>
  after a call: \<open>Next_calls n\<close> is that sequence of \<open>n\<close> calls, with the value of each
  call and the value of \<open>Error()\<close> right after it.
\<close>

fun Next_calls ::
  "nat \<Rightarrow> ('a, 's) PageIterator \<Rightarrow> 's
     \<Rightarrow> panic + ((bool \<times> error option) list \<times> ('a, 's) PageIterator \<times> 's)" where
  "Next_calls 0 i s = Inr ([], i, s)"
| "Next_calls (Suc n) i s =
     (case Next i s of
        Inl p \<Rightarrow> Inl p
      | Inr (b, i', s') \<Rightarrow>
          (case Next_calls n i' s' of
             Inl p \<Rightarrow> Inl p
           | Inr (bs, i'', s'') \<Rightarrow> Inr ((b, Error i') # bs, i'', s'')))"

record mockItem =
  ID :: go_int
  Name :: string

definition mockPages :: "mockItem PaginatedResponse list" where
  "mockPages =
     [\<lparr>Items = [\<lparr>ID = 1, Name = ''Item 1''\<rparr>, \<lparr>ID = 2, Name = ''Item 2''\<rparr>],
       CurrentPage = 1, TotalItems = 5, HasMoreItems = True\<rparr>,
      \<lparr>Items = [\<lparr>ID = 3, Name = ''Item 3''\<rparr>, \<lparr>ID = 4, Name = ''Item 4''\<rparr>],
       CurrentPage = 2, TotalItems = 5, HasMoreItems = True\<rparr>,
      \<lparr>Items = [\<lparr>ID = 5, Name = ''Item 5''\<rparr>],
       CurrentPage = 3, TotalItems = 5, HasMoreItems = False\<rparr>]"

text \<open>
  The test's \<open>clientFn\<close> is a closure over the slice of pages it serves; the slice is
  its first argument here. It keeps no state of its own.
\<close>

definition clientFn :: "'a PaginatedResponse list \<Rightarrow> ('a, unit) fetch" where
  "clientFn pages s page perPage =
     (if page <s 1 \<or> word_of_nat (length pages) <s page
      then ((None, Some (ErrorString ''page out of range'')), s)
      else ((Some (pages ! unat (page - 1)), None), s))"

text \<open>
  Three pages of which the second is empty although it announces more items.
\<close>

definition gapPages :: "nat PaginatedResponse list" where
  "gapPages =
     [\<lparr>Items = [1], CurrentPage = 1, TotalItems = 2, HasMoreItems = True\<rparr>,
      \<lparr>Items = [], CurrentPage = 2, TotalItems = 2, HasMoreItems = True\<rparr>,
      \<lparr>Items = [2], CurrentPage = 3, TotalItems = 2, HasMoreItems = False\<rparr>]"

text \<open>
  The test's failing closure, which answers every request with \<open>test error\<close>; the state
  counts its calls.
\<close>

definition errorFn :: "('a, nat) fetch" where
  "errorFn calls page perPage = ((None, Some (ErrorString ''test error'')), Suc calls)"

text \<open>A fetch function that answers every request with the same page.\<close>

definition samePageFn :: "'a PaginatedResponse \<Rightarrow> ('a, unit) fetch" where
  "samePageFn r s page perPage = ((Some r, None), s)"

text \<open>
  What a fetch function answers when it is asked \<open>n\<close> times in a row, for the pages
  \<open>page\<close>, \<open>page + 1\<close>, ... at one page size: the answers in order, and its state at the end.
\<close>

fun answers ::
  "('a, 's) fetch \<Rightarrow> 's \<Rightarrow> go_int \<Rightarrow> go_int \<Rightarrow> nat
     \<Rightarrow> ('a PaginatedResponse option \<times> error option) list \<times> 's" where
  "answers c s page perPage 0 = ([], s)"
| "answers c s page perPage (Suc n) =
     (case c s page perPage of
        (a, s1) \<Rightarrow>
          (case answers c s1 (page + 1) perPage n of
             (as, s') \<Rightarrow> (a # as, s')))"

section \<open>Formatting of integers\<close>

text \<open>The verb \<open>%d\<close> of \<open>fmt\<close>: a decimal numeral, with a minus sign when negative.\<close>

fun digits10 :: "nat \<Rightarrow> string" where
  "digits10 n =
     (if n < 10 then [char_of (48 + n)]
      else digits10 (n div 10) @ [char_of (48 + n mod 10)])"

declare digits10.simps [simp del]

definition fmt_d :: "go_int \<Rightarrow> string" where
  "fmt_d i =
     (if sint i < 0 then CHR ''-'' # digits10 (nat (- sint i)) else digits10 (nat (sint i)))"

section \<open>common: decoding an error response\<close>

text \<open>
  An HTTP response as far as this code reads it: the status code and the body, a stream
  of some type \<open>'b\<close>. The functions of the standard library that consume the body are
  parameters of the model:
  \<^item> \<open>decode\<close> is \<open>json.NewDecoder(body).Decode(errorResponse)\<close>: it returns the
    target as it has left it, and an error or none;
  \<^item> \<open>readAll\<close> is \<open>io.ReadAll\<close>: the content, or an error;
  \<^item> \<open>unmarshal\<close> is \<open>json.Unmarshal(content, v)\<close>: the target as it has left it, and
    an error or none.
\<close>

record 'b Response =
  StatusCode :: go_int
  Body :: 'b

type_synonym 'b json_Decode = "'b \<Rightarrow> ErrorResponse \<Rightarrow> ErrorResponse \<times> error option"
type_synonym 'b io_ReadAll = "'b \<Rightarrow> error + string"
type_synonym 'v json_Unmarshal = "string \<Rightarrow> 'v \<Rightarrow> 'v \<times> error option"

definition ParseErrorResponse :: "'b json_Decode \<Rightarrow> 'b Response \<Rightarrow> error option" where
  "ParseErrorResponse decode resp =
     (if 200 \<le>s Response.StatusCode resp \<and> Response.StatusCode resp <s 300 then None
      else
        let errorResponse =
              \<lparr>ErrorKey = [], Field = [], Message = [],
               StatusCode = Response.StatusCode resp\<rparr>
        in (case decode (Body resp) errorResponse of
              (errorResponse, Some e) \<Rightarrow>
                Some (ErrorString
                  (''bunnynet API error: status code '' @ fmt_d (Response.StatusCode resp)))
            | (errorResponse, None) \<Rightarrow> Some (RemoteError errorResponse)))"

text \<open>
  A stand-in for the JSON decoder in examples: it accepts a body that opens an object,
  leaving the target as it is, and rejects any other body.
\<close>

definition stubDecode :: "string json_Decode" where
  "stubDecode body errorResponse =
     (case body of
        CHR ''{'' # rest \<Rightarrow> (errorResponse, None)
      | _ \<Rightarrow> (errorResponse, Some (ForeignError ''invalid character'')))"

section \<open>internal: sending a request and parsing the response\<close>

text \<open>
  \<open>do\<close> is \<open>client.Do\<close> of net/http: an error, or else a response.
  \<open>DoRequest\<close> returns Go's pair of a response (possibly nil) and an error (possibly nil).
\<close>

definition DoRequest ::
  "'b json_Decode \<Rightarrow> ('r \<Rightarrow> error + 'b Response) \<Rightarrow> 'r
     \<Rightarrow> 'b Response option \<times> error option" where
  "DoRequest decode do req =
     (case do req of
        Inl e \<Rightarrow> (None, Some (NewClientError ''failed to send request'' (Some e)))
      | Inr resp \<Rightarrow>
          if 400 \<le>s Response.StatusCode resp
          then (Some resp, ParseErrorResponse decode resp)
          else (Some resp, None))"

definition StatusNoContent :: go_int where
  "StatusNoContent = 204"

text \<open>
  The target \<open>v\<close> of \<open>ParseResponse\<close> is an \<open>interface{}\<close>: nil, or a pointer to a value
  that the JSON decoder writes. The functions return the error (or none) and the target
  as it is afterwards.
\<close>

definition ParseResponse ::
  "'b json_Decode \<Rightarrow> 'b io_ReadAll \<Rightarrow> 'v json_Unmarshal \<Rightarrow> 'b Response \<Rightarrow> 'v option
     \<Rightarrow> error option \<times> 'v option" where
  "ParseResponse decode readAll unmarshal resp v =
     (if Response.StatusCode resp = StatusNoContent then (None, v)
      else
        (case v of
           None \<Rightarrow> (None, v)
         | Some target \<Rightarrow>
             if 400 \<le>s Response.StatusCode resp then (ParseErrorResponse decode resp, v)
             else
               (case readAll (Body resp) of
                  Inl e \<Rightarrow> (Some (NewClientError ''failed to read response body'' (Some e)), v)
                | Inr body \<Rightarrow>
                    (case unmarshal body target of
                       (target', Some e) \<Rightarrow>
                         (Some (NewClientError ''failed to parse response body'' (Some e)),
                          Some target')
                     | (target', None) \<Rightarrow> (None, Some target')))))"

definition ParsePaginatedResponse ::
  "'b io_ReadAll \<Rightarrow> 'a PaginatedResponse json_Unmarshal \<Rightarrow> 'b Response
     \<Rightarrow> 'a PaginatedResponse \<Rightarrow> error option \<times> 'a PaginatedResponse" where
  "ParsePaginatedResponse readAll unmarshal resp v =
     (case readAll (Body resp) of
        Inl e \<Rightarrow> (Some (NewClientError ''failed to read response body'' (Some e)), v)
      | Inr body \<Rightarrow>
          (case unmarshal body v of
             (v', Some e) \<Rightarrow>
               (Some (NewClientError ''failed to parse paginated response'' (Some e)), v')
           | (v', None) \<Rightarrow> (None, v')))"

text \<open>
  \<open>CountryService.ListPaginated\<close> from its call of \<open>DoRequest\<close> on, the request \<open>req\<close>
  being built: the paginated decode comes after the transport step, into a zero-valued
  \<open>PaginatedResponse\<close>. It returns Go's pair of a response pointer and an error. Passing
  on a nil response without an error would be a nil dereference in the decode.
\<close>

definition ListPaginated_send ::
  "'b json_Decode \<Rightarrow> 'b io_ReadAll \<Rightarrow> 'a PaginatedResponse json_Unmarshal
     \<Rightarrow> ('r \<Rightarrow> error + 'b Response) \<Rightarrow> 'r
     \<Rightarrow> panic + ('a PaginatedResponse option \<times> error option)" where
  "ListPaginated_send decode readAll unmarshal do req =
     (case DoRequest decode do req of
        (resp, Some e) \<Rightarrow> Inr (None, Some e)
      | (None, None) \<Rightarrow> Inl NilPointerDereference
      | (Some resp, None) \<Rightarrow>
          let paginatedResponse =
                \<lparr>Items = [], CurrentPage = 0, TotalItems = 0, HasMoreItems = False\<rparr>
          in (case ParsePaginatedResponse readAll unmarshal resp paginatedResponse of
                (Some e, paginatedResponse) \<Rightarrow> Inr (None, Some e)
              | (None, paginatedResponse) \<Rightarrow> Inr (Some paginatedResponse, None)))"

section \<open>internal/request.go: building a request\<close>

text \<open>
  A request of net/http as far as this code sets it: method, URL, payload and header
  fields. \<open>Header.Set\<close> stores under the canonical form of the key and \<open>Header.Get\<close>
  reads under it; the header map here is keyed by the names the code writes.
\<close>

record Request =
  Method :: string
  URL :: string
  Payload :: "string option"
  Header :: "string \<rightharpoonup> string"

definition Header_Set :: "Request \<Rightarrow> string \<Rightarrow> string \<Rightarrow> Request" where
  "Header_Set req key val = req\<lparr>Header := (Header req)(key \<mapsto> val)\<rparr>"

text \<open>
  The functions of net/url, encoding/json and net/http that \<open>NewRequest\<close> calls:
  \<open>url.Parse\<close>, \<open>URL.ResolveReference\<close> with a path-only reference, \<open>URL.String\<close>, the
  bytes that \<open>json.NewEncoder(buf).Encode(body)\<close> writes, and the check by which
  \<open>http.NewRequest\<close> rejects a method or a URL.
\<close>

record ('u, 'body) stdlib =
  url_Parse :: "string \<Rightarrow> error + 'u"
  url_ResolveReference :: "'u \<Rightarrow> string \<Rightarrow> 'u"
  url_String :: "'u \<Rightarrow> string"
  json_Encode :: "'body \<Rightarrow> error + string"
  http_invalid :: "string \<Rightarrow> string \<Rightarrow> error option"

text \<open>
  \<open>http.NewRequest\<close>: an error for an invalid method or URL; otherwise a request with
  that method (\<open>GET\<close> for the empty one), URL and body, and with no header field.
\<close>

definition http_NewRequest ::
  "('u, 'body) stdlib \<Rightarrow> string \<Rightarrow> string \<Rightarrow> string option \<Rightarrow> error + Request" where
  "http_NewRequest lib method url body =
     (case http_invalid lib method url of
        Some e \<Rightarrow> Inl e
      | None \<Rightarrow>
          Inr \<lparr>Method = (if method = [] then ''GET'' else method), URL = url,
               Payload = body, Header = Map.empty\<rparr>)"

definition MethodPost :: string where
  "MethodPost = ''POST''"

definition MethodPut :: string where
  "MethodPut = ''PUT''"

definition MethodPatch :: string where
  "MethodPatch = ''PATCH''"

definition NewRequest ::
  "('u, 'body) stdlib \<Rightarrow> string \<Rightarrow> string \<Rightarrow> string \<Rightarrow> 'body option \<Rightarrow> string \<Rightarrow> string
     \<Rightarrow> error + Request" where
  "NewRequest lib method baseURL path body apiKey userAgent =
     (case url_Parse lib baseURL of
        Inl e \<Rightarrow> Inl (NewClientError ''failed to parse base URL'' (Some e))
      | Inr u \<Rightarrow>
          let u = url_ResolveReference lib u path in
          (case (case body of
                   None \<Rightarrow> Inr None
                 | Some b \<Rightarrow>
                     if method = MethodPost \<or> method = MethodPut \<or> method = MethodPatch
                     then (case json_Encode lib b of
                             Inl e \<Rightarrow>
                               Inl (NewClientError ''failed to encode request body'' (Some e))
                           | Inr bytes \<Rightarrow> Inr (Some bytes))
                     else Inr None) of
             Inl e \<Rightarrow> Inl e
           | Inr buf \<Rightarrow>
               (case http_NewRequest lib method (url_String lib u) buf of
                  Inl e \<Rightarrow> Inl (NewClientError ''failed to create request'' (Some e))
                | Inr req \<Rightarrow>
                    let req = Header_Set req ''Accept'' ''application/json'';
                        req = (if body \<noteq> None \<and>
                                  (method = MethodPost \<or> method = MethodPut \<or>
                                   method = MethodPatch)
                               then Header_Set req ''Content-Type'' ''application/json''
                               else req);
                        req = (if apiKey \<noteq> [] then Header_Set req ''AccessKey'' apiKey
                               else req);
                        req = (if userAgent \<noteq> [] then Header_Set req ''User-Agent'' userAgent
                               else req)
                    in Inr req)))"

text \<open>
  A standard library for examples: URLs are strings and resolving appends the path, the
  encoder writes the body followed by a newline, every method and URL is accepted.
\<close>

definition testlib :: "(string, string) stdlib" where
  "testlib =
     \<lparr>url_Parse = Inr, url_ResolveReference = (\<lambda>u p. u @ p), url_String = id,
      json_Encode = (\<lambda>b. Inr (b @ [CHR 0x0A])), http_invalid = (\<lambda>m u. None)\<rparr>"

section \<open>Arithmetic of 64-bit integers\<close>

lemma sdiv_nonneg: "0 \<le> a \<Longrightarrow> 0 < b \<Longrightarrow> (a::int) sdiv b = a div b"
  by (simp add: signed_divide_int_def sgn_if)

lemma smod_nonneg: "0 \<le> a \<Longrightarrow> 0 < b \<Longrightarrow> (a::int) smod b = a mod b"
  by (simp add: signed_modulo_int_def sgn_if)

lemma ceiling_div_mod:
  assumes b: "0 < (b::int)"
  shows "\<lceil>real_of_int a / real_of_int b\<rceil> = a div b + (if 0 < a mod b then 1 else 0)"
proof (cases "a mod b = 0")
  case True
  then show ?thesis using b by (simp add: ceiling_divide_eq_div zdiv_zminus1_eq_if)
next
  case False
  moreover have "0 \<le> a mod b" using b by simp
  ultimately have "0 < a mod b" by linarith
  then show ?thesis using b by (simp add: ceiling_divide_eq_div zdiv_zminus1_eq_if)
qed

lemma sint_word_of_int_64:
  "- (2 ^ 63) \<le> x \<Longrightarrow> x < 2 ^ 63 \<Longrightarrow> sint (word_of_int x :: go_int) = x"
  by (simp add: sint_sbintrunc' signed_take_bit_int_eq_self)

lemma sint_range_64: "- (2 ^ 63) \<le> sint (w :: go_int) \<and> sint w < 2 ^ 63"
  using sint_ge [of w] sint_lt [of w] by simp

lemma sint_succ_64: "sint (w :: go_int) < 2 ^ 63 - 1 \<Longrightarrow> sint (w + 1) = sint w + 1"
  using sint_ge [of w] by (simp add: sint_word_ariths signed_take_bit_int_eq_self)

section \<open>Pagination values\<close>

text \<open>
  Claim C5. \<open>WithPage\<close> stores page 1 for every requested page below 1 and the requested
  page otherwise; \<open>WithPerPage\<close> stores 100 for every requested size below 1, 1000 for
  every size above 1000, and the requested size otherwise. Each setter leaves the other
  field alone. Comparisons are those of signed 64-bit integers.
\<close>

theorem Pagination_clamping:
  "WithPage p page = p\<lparr>Page := if sint page < 1 then 1 else page\<rparr> \<and>
   WithPerPage p perPage =
     p\<lparr>PerPage := if sint perPage < 1 then 100 else if 1000 < sint perPage then 1000 else perPage\<rparr>"
  by (simp add: WithPage_def WithPerPage_def DefaultPage_def DefaultPerPage_def MaxPerPage_def
      word_sless_alt)

lemma TotalPages_pos:
  assumes t: "0 \<le> sint (PageInfo.TotalItems p)" and pp: "0 < sint perPage"
  shows "sint (TotalPages p perPage) =
         \<lceil>real_of_int (sint (PageInfo.TotalItems p)) / real_of_int (sint perPage)\<rceil>"
proof -
  define a where "a = sint (PageInfo.TotalItems p)"
  define b where "b = sint perPage"
  have a0: "0 \<le> a" and b0: "0 < b" using t pp by (simp_all add: a_def b_def)
  have a_hi: "a < 2 ^ 63" unfolding a_def using sint_range_64 by blast
  have q0: "0 \<le> a div b" using a0 b0 by (simp add: pos_imp_zdiv_nonneg_iff)
  have q_le: "a div b \<le> a" using zdiv_mono2 [of a 1 b] a0 b0 by simp
  have r0: "0 \<le> a mod b" and r_lt: "a mod b < b" using b0 by simp_all
  have b_hi: "b < 2 ^ 63" unfolding b_def using sint_range_64 by blast
  have sq: "sint (int_div (PageInfo.TotalItems p) perPage) = a div b"
    unfolding int_div_def using a0 b0 q0 q_le a_hi
    by (simp add: a_def [symmetric] b_def [symmetric] sdiv_nonneg sint_word_of_int_64)
  have sr: "sint (int_rem (PageInfo.TotalItems p) perPage) = a mod b"
    unfolding int_rem_def using a0 b0 r0 r_lt b_hi
    by (simp add: a_def [symmetric] b_def [symmetric] smod_nonneg sint_word_of_int_64)
  have no_wrap: "0 < a mod b \<Longrightarrow> a div b < 2 ^ 63 - 1"
  proof -
    assume m: "0 < a mod b"
    have "b \<noteq> 1" using m by auto
    then have b2: "2 \<le> b" using b0 by linarith
    have "a div b \<le> a div 2" using a0 b2 by (simp add: zdiv_mono2)
    also have "\<dots> < 2 ^ 63 - 1" using a_hi by simp
    finally show ?thesis .
  qed
  have npp: "\<not> perPage \<le>s 0" using pp by (simp add: word_sle_eq)
  show ?thesis
  proof (cases "0 < a mod b")
    case True
    then have "sint (int_div (PageInfo.TotalItems p) perPage + 1) = a div b + 1"
      using no_wrap sq by (simp add: sint_succ_64)
    then show ?thesis using True npp sr b0
      by (simp add: TotalPages_def word_sless_alt ceiling_div_mod a_def [symmetric] b_def [symmetric])
  next
    case False
    then show ?thesis using npp sr sq b0
      by (simp add: TotalPages_def word_sless_alt ceiling_div_mod a_def [symmetric] b_def [symmetric])
  qed
qed

text \<open>
  Claim C6. For a total of items that is not negative, \<open>TotalPages\<close> is the ceiling of
  total items over page size when the page size is positive, and 0 when it is not; the
  64-bit arithmetic does not wrap on the way. A total of 25 gives 5 pages of 5 and 3
  pages of 10.
\<close>

theorem TotalPages_ceiling:
  "(0 \<le> sint (PageInfo.TotalItems p) \<and> 0 < sint perPage \<longrightarrow>
      sint (TotalPages p perPage) =
        \<lceil>real_of_int (sint (PageInfo.TotalItems p)) / real_of_int (sint perPage)\<rceil>) \<and>
   (sint perPage \<le> 0 \<longrightarrow> TotalPages p perPage = 0) \<and>
   TotalPages \<lparr>CurrentPage = c, TotalItems = 25, HasMoreItems = h\<rparr> 5 = 5 \<and>
   TotalPages \<lparr>CurrentPage = c, TotalItems = 25, HasMoreItems = h\<rparr> 10 = 3"
proof (intro conjI impI)
  assume "0 \<le> sint (PageInfo.TotalItems p) \<and> 0 < sint perPage"
  then show "sint (TotalPages p perPage) =
        \<lceil>real_of_int (sint (PageInfo.TotalItems p)) / real_of_int (sint perPage)\<rceil>"
    by (simp add: TotalPages_pos)
next
  assume "sint perPage \<le> 0"
  then show "TotalPages p perPage = 0"
    by (simp add: TotalPages_def word_sle_eq)
next
  show "TotalPages \<lparr>CurrentPage = c, TotalItems = 25, HasMoreItems = h\<rparr> 5 = 5"
    by (simp add: TotalPages_def int_div_def int_rem_def word_sle_eq word_sless_alt
        signed_divide_int_def signed_modulo_int_def)
  show "TotalPages \<lparr>CurrentPage = c, TotalItems = 25, HasMoreItems = h\<rparr> 10 = 3"
    by (simp add: TotalPages_def int_div_def int_rem_def word_sle_eq word_sless_alt
        signed_divide_int_def signed_modulo_int_def)
qed

theorem TotalPages_ceiling_witness:
  "0 \<le> sint (7 :: go_int) \<and> 0 < sint (2 :: go_int) \<and>
   sint (TotalPages \<lparr>CurrentPage = 1, TotalItems = 7, HasMoreItems = True\<rparr> 2) =
     \<lceil>real_of_int (sint (7 :: go_int)) / real_of_int (sint (2 :: go_int))\<rceil> \<and>
   TotalPages \<lparr>CurrentPage = 1, TotalItems = 7, HasMoreItems = True\<rparr> 2 = 4 \<and>
   sint (- 3 :: go_int) \<le> 0 \<and>
   TotalPages \<lparr>CurrentPage = 1, TotalItems = 7, HasMoreItems = True\<rparr> (- 3) = 0"
proof -
  have four: "TotalPages \<lparr>CurrentPage = 1, TotalItems = 7, HasMoreItems = True\<rparr> 2 = 4"
    by (simp add: TotalPages_def int_div_def int_rem_def word_sle_eq word_sless_alt
        signed_divide_int_def signed_modulo_int_def)
  have neg: "sint (- 3 :: go_int) \<le> 0" by simp
  from TotalPages_ceiling [of "\<lparr>CurrentPage = 1, TotalItems = 7, HasMoreItems = True\<rparr>" 2]
       TotalPages_ceiling [of "\<lparr>CurrentPage = 1, TotalItems = 7, HasMoreItems = True\<rparr>" "- 3"]
       four neg
  show ?thesis by simp
qed

section \<open>The page iterator\<close>

lemma NewPageIterator_1_2:
  "NewPageIterator c 1 2 =
     \<lparr>client = c, pagination = \<lparr>Page = 1, PerPage = 2\<rparr>, currentResponse = None, err = None\<rparr>"
  by (simp add: NewPageIterator_def NewPagination_def WithPage_def WithPerPage_def
      DefaultPage_def DefaultPerPage_def MaxPerPage_def word_sless_alt)

text \<open>
  Claim C1. An iterator without stored error whose last page, if any, announced more
  items calls the fetch function; when that returns a response \<open>r\<close> and no error, \<open>Next\<close>
  stores \<open>r\<close>, adds 1 to the page cursor (in Go's \<open>int\<close> arithmetic, and whatever
  \<open>HasMoreItems\<close> of \<open>r\<close> is), leaves everything else as it was, and returns true exactly
  when \<open>r\<close> has at least one item.
\<close>

theorem Next_success:
  assumes "err i = None"
    and "currentResponse i = None \<or>
         (\<exists>r0. currentResponse i = Some r0 \<and> PaginatedResponse.HasMoreItems r0)"
    and "client i s (Page (pagination i)) (PerPage (pagination i)) = ((Some r, None), s')"
  shows "Next i s =
           Inr (0 < length (PaginatedResponse.Items r),
                i\<lparr>currentResponse := Some r,
                  pagination := (pagination i)\<lparr>Page := Page (pagination i) + 1\<rparr>\<rparr>,
                s')"
  using assms by (auto simp add: Next_def)

theorem Next_success_witness:
  "Next (NewPageIterator (samePageFn \<lparr>Items = [], CurrentPage = 1, TotalItems = 0, HasMoreItems = False\<rparr>) 1 2) () =
     Inr (False,
          \<lparr>client = samePageFn \<lparr>Items = [] :: nat list, CurrentPage = 1, TotalItems = 0, HasMoreItems = False\<rparr>,
           pagination = \<lparr>Page = 2, PerPage = 2\<rparr>,
           currentResponse = Some \<lparr>Items = [], CurrentPage = 1, TotalItems = 0, HasMoreItems = False\<rparr>,
           err = None\<rparr>, ())"
  using Next_success
          [of "NewPageIterator (samePageFn \<lparr>Items = [] :: nat list, CurrentPage = 1, TotalItems = 0, HasMoreItems = False\<rparr>) 1 2"
              "()" "\<lparr>Items = [], CurrentPage = 1, TotalItems = 0, HasMoreItems = False\<rparr>" "()"]
  by (simp add: NewPageIterator_1_2 samePageFn_def)

lemma Next_failed: "err i = Some e \<Longrightarrow> Next i s = Inr (False, i, s)"
  by (simp add: Next_def)

text \<open>
  Claim C2. Once an error is stored, any number of calls of \<open>Next\<close> all return false and
  \<open>Error()\<close> returns that same error after each; the iterator and the state of the fetch
  function stay as they were, whatever the fetch function is, so it is not called.
  \<open>Reset\<close> clears the error.
\<close>

theorem failed_iterator_frozen:
  "err i = Some e \<Longrightarrow>
   Next_calls n i s = Inr (replicate n (False, Some e), i, s) \<and> Error (Reset i) = None"
  by (induction n) (simp_all add: Next_failed Error_def Reset_def)

theorem failed_iterator_frozen_witness:
  "Next (NewPageIterator errorFn 1 10) 0 =
     Inr (False,
          \<lparr>client = errorFn :: (nat, nat) fetch, pagination = \<lparr>Page = 1, PerPage = 10\<rparr>,
           currentResponse = None, err = Some (ErrorString ''test error'')\<rparr>, 1) \<and>
   Next_calls 3
     \<lparr>client = errorFn :: (nat, nat) fetch, pagination = \<lparr>Page = 1, PerPage = 10\<rparr>,
      currentResponse = None, err = Some (ErrorString ''test error'')\<rparr> 1 =
     Inr ([(False, Some (ErrorString ''test error'')), (False, Some (ErrorString ''test error'')),
           (False, Some (ErrorString ''test error''))],
          \<lparr>client = errorFn, pagination = \<lparr>Page = 1, PerPage = 10\<rparr>,
           currentResponse = None, err = Some (ErrorString ''test error'')\<rparr>, 1) \<and>
   Error (Reset \<lparr>client = errorFn :: (nat, nat) fetch, pagination = \<lparr>Page = 1, PerPage = 10\<rparr>,
      currentResponse = None, err = Some (ErrorString ''test error'')\<rparr>) = None"
  using failed_iterator_frozen
          [of "\<lparr>client = errorFn :: (nat, nat) fetch, pagination = \<lparr>Page = 1, PerPage = 10\<rparr>,
                currentResponse = None, err = Some (ErrorString ''test error'')\<rparr>"
              "ErrorString ''test error''" 3 1]
  by (simp add: numeral_3_eq_3 Next_def NewPageIterator_def NewPagination_def WithPage_def WithPerPage_def
      DefaultPage_def DefaultPerPage_def MaxPerPage_def word_sless_alt errorFn_def)

text \<open>
  Claim C3. Let a fetch function, whatever its items and its state, answer the requests
  for the pages 1, 2 and 3 at page size 2 with a page of 2 items that announces more, a
  page of 2 items that announces more, and a page of 1 item that announces no more. Then
  \<open>Error()\<close> is nil on a fresh iterator, four calls of \<open>Next\<close> return true, true, true,
  false with \<open>Error()\<close> nil after each, and \<open>AllItems\<close> on a fresh iterator returns the
  items of the three pages in page order, 5 in all, and no error.
\<close>

theorem three_pages_walk:
  assumes ans: "answers c s 1 2 3 = ([(Some r1, None), (Some r2, None), (Some r3, None)], s')"
    and p1: "length (PaginatedResponse.Items r1) = 2 \<and> PaginatedResponse.HasMoreItems r1"
    and p2: "length (PaginatedResponse.Items r2) = 2 \<and> PaginatedResponse.HasMoreItems r2"
    and p3: "length (PaginatedResponse.Items r3) = 1 \<and> \<not> PaginatedResponse.HasMoreItems r3"
  shows "Error (NewPageIterator c 1 2) = None \<and>
         map_sum id fst (Next_calls 4 (NewPageIterator c 1 2) s) =
           Inr [(True, None), (True, None), (True, None), (False, None)] \<and>
         map_option (map_sum id fst) (AllItems (NewPageIterator c 1 2) s) =
           Some (Inr (PaginatedResponse.Items r1 @ PaginatedResponse.Items r2 @
                        PaginatedResponse.Items r3, None)) \<and>
         length (PaginatedResponse.Items r1 @ PaginatedResponse.Items r2 @
                   PaginatedResponse.Items r3) = 5"
proof -
  obtain a1 s1 where e1: "c s 1 2 = (a1, s1)" by (cases "c s 1 2")
  obtain a2 s2 where e2: "c s1 2 2 = (a2, s2)" by (cases "c s1 2 2")
  obtain a3 s3 where e3: "c s2 3 2 = (a3, s3)" by (cases "c s2 3 2")
  from ans e1 e2 e3 have a: "a1 = (Some r1, None)" "a2 = (Some r2, None)" "a3 = (Some r3, None)"
    by (simp_all add: eval_nat_numeral)
  note c1 = e1 [unfolded a] and c2 = e2 [unfolded a] and c3 = e3 [unfolded a]
  have n1: "PaginatedResponse.Items r1 \<noteq> []" using p1 by auto
  have n2: "PaginatedResponse.Items r2 \<noteq> []" using p2 by auto
  have n3: "PaginatedResponse.Items r3 \<noteq> []" using p3 by auto
  have fresh: "Error (NewPageIterator c 1 2) = None"
    by (simp add: NewPageIterator_1_2 Error_def)
  have walk: "map_sum id fst (Next_calls 4 (NewPageIterator c 1 2) s) =
           Inr [(True, None), (True, None), (True, None), (False, None)]"
    using p1 p2 p3 n1 n2 n3
    by (simp add: eval_nat_numeral NewPageIterator_1_2 Next_def Error_def c1 c2 c3)
  have all: "map_option (map_sum id fst) (AllItems (NewPageIterator c 1 2) s) =
           Some (Inr (PaginatedResponse.Items r1 @ PaginatedResponse.Items r2 @
                        PaginatedResponse.Items r3, None))"
    using p1 p2 p3 n1 n2 n3
    by (simp add: AllItems_def AllItems_loop.simps Reset_def DefaultPage_def PageIterator_Items_def
        NewPageIterator_1_2 Next_def Error_def c1 c2 c3)
  have len: "length (PaginatedResponse.Items r1 @ PaginatedResponse.Items r2 @
                   PaginatedResponse.Items r3) = 5"
    using p1 p2 p3 by simp
  from fresh walk all len show ?thesis by simp
qed

text \<open>The pages and the fetch function of \<open>TestPageIterator\<close>.\<close>

theorem three_pages_walk_witness:
  "answers (clientFn mockPages) () 1 2 3 =
     ([(Some \<lparr>Items = [\<lparr>ID = 1, Name = ''Item 1''\<rparr>, \<lparr>ID = 2, Name = ''Item 2''\<rparr>],
          CurrentPage = 1, TotalItems = 5, HasMoreItems = True\<rparr>, None),
       (Some \<lparr>Items = [\<lparr>ID = 3, Name = ''Item 3''\<rparr>, \<lparr>ID = 4, Name = ''Item 4''\<rparr>],
          CurrentPage = 2, TotalItems = 5, HasMoreItems = True\<rparr>, None),
       (Some \<lparr>Items = [\<lparr>ID = 5, Name = ''Item 5''\<rparr>],
          CurrentPage = 3, TotalItems = 5, HasMoreItems = False\<rparr>, None)], ()) \<and>
   Error (NewPageIterator (clientFn mockPages) 1 2) = None \<and>
   map_sum id fst (Next_calls 4 (NewPageIterator (clientFn mockPages) 1 2) ()) =
     Inr [(True, None), (True, None), (True, None), (False, None)] \<and>
   map_option (map_sum id fst) (AllItems (NewPageIterator (clientFn mockPages) 1 2) ()) =
     Some (Inr ([\<lparr>ID = 1, Name = ''Item 1''\<rparr>, \<lparr>ID = 2, Name = ''Item 2''\<rparr>,
                 \<lparr>ID = 3, Name = ''Item 3''\<rparr>, \<lparr>ID = 4, Name = ''Item 4''\<rparr>,
                 \<lparr>ID = 5, Name = ''Item 5''\<rparr>], None))"
proof -
  have c1: "clientFn mockPages () 1 2 =
      ((Some \<lparr>Items = [\<lparr>ID = 1, Name = ''Item 1''\<rparr>, \<lparr>ID = 2, Name = ''Item 2''\<rparr>],
          CurrentPage = 1, TotalItems = 5, HasMoreItems = True\<rparr>, None), ())"
    by (simp add: clientFn_def mockPages_def word_sless_alt)
  have c2: "clientFn mockPages () 2 2 =
      ((Some \<lparr>Items = [\<lparr>ID = 3, Name = ''Item 3''\<rparr>, \<lparr>ID = 4, Name = ''Item 4''\<rparr>],
          CurrentPage = 2, TotalItems = 5, HasMoreItems = True\<rparr>, None), ())"
    by (simp add: clientFn_def mockPages_def word_sless_alt)
  have c3: "clientFn mockPages () 3 2 =
      ((Some \<lparr>Items = [\<lparr>ID = 5, Name = ''Item 5''\<rparr>],
          CurrentPage = 3, TotalItems = 5, HasMoreItems = False\<rparr>, None), ())"
    by (simp add: clientFn_def mockPages_def word_sless_alt)
  have ans: "answers (clientFn mockPages) () 1 2 3 =
     ([(Some \<lparr>Items = [\<lparr>ID = 1, Name = ''Item 1''\<rparr>, \<lparr>ID = 2, Name = ''Item 2''\<rparr>],
          CurrentPage = 1, TotalItems = 5, HasMoreItems = True\<rparr>, None),
       (Some \<lparr>Items = [\<lparr>ID = 3, Name = ''Item 3''\<rparr>, \<lparr>ID = 4, Name = ''Item 4''\<rparr>],
          CurrentPage = 2, TotalItems = 5, HasMoreItems = True\<rparr>, None),
       (Some \<lparr>Items = [\<lparr>ID = 5, Name = ''Item 5''\<rparr>],
          CurrentPage = 3, TotalItems = 5, HasMoreItems = False\<rparr>, None)], ())"
    by (simp add: numeral_3_eq_3 c1 c2 c3)
  from three_pages_walk [OF ans] ans show ?thesis by simp
qed

subsection \<open>The loop of AllItems\<close>

lemma AllItems_loop_run:
  assumes "err i = None"
    and "currentResponse i = None \<or>
         (\<exists>r0. currentResponse i = Some r0 \<and> PaginatedResponse.HasMoreItems r0)"
    and "answers (client i) s (Page (pagination i)) (PerPage (pagination i)) (Suc (length rs)) =
           (map (\<lambda>r. (Some r, None)) rs @ [a], s')"
    and "\<forall>r\<in>set rs. PaginatedResponse.HasMoreItems r \<and> PaginatedResponse.Items r \<noteq> []"
    and "\<forall>r. a = (Some r, None) \<longrightarrow>
           \<not> PaginatedResponse.HasMoreItems r \<or> PaginatedResponse.Items r = []"
  shows "map_option (map_sum id (\<lambda>(xs, i', s''). (xs, Error i', s''))) (AllItems_loop i s acc) =
           Some (if snd a \<noteq> None
                 then Inr (acc @ concat (map PaginatedResponse.Items rs), snd a, s')
                 else (case fst a of
                         None \<Rightarrow> Inl NilPointerDereference
                       | Some r \<Rightarrow>
                           Inr (acc @ concat (map PaginatedResponse.Items rs) @
                                  PaginatedResponse.Items r, None, s')))"
  using assms
proof (induction rs arbitrary: i s acc)
  case Nil
  from Nil.prems(3) have c: "client i s (Page (pagination i)) (PerPage (pagination i)) = (a, s')"
    by (simp split: prod.splits)
  obtain x e where a: "a = (x, e)" by (cases a)
  show ?case
  proof (cases e)
    case (Some ee)
    then show ?thesis using Nil.prems(1,2) c a
      by (subst AllItems_loop.simps) (auto simp add: Next_def Error_def)
  next
    case None
    note eN = None
    show ?thesis
    proof (cases x)
      case None
      then show ?thesis using Nil.prems(1,2) c a eN
        by (subst AllItems_loop.simps) (auto simp add: Next_def Error_def)
    next
      case (Some r)
      show ?thesis
      proof (cases "PaginatedResponse.Items r = []")
        case True
        then show ?thesis using Nil.prems(1,2) c a eN Some
          by (subst AllItems_loop.simps) (auto simp add: Next_def Error_def)
      next
        case False
        with Nil.prems(5) a eN Some have nm: "\<not> PaginatedResponse.HasMoreItems r" by simp
        define i1 where "i1 = i\<lparr>currentResponse := Some r,
                  pagination := (pagination i)\<lparr>Page := Page (pagination i) + 1\<rparr>\<rparr>"
        have nx: "Next i s = Inr (True, i1, s')"
          using Nil.prems(1,2) c a eN Some False by (auto simp add: Next_def i1_def)
        have nx1: "Next i1 s' = Inr (False, i1, s')"
          using Nil.prems(1) nm by (simp add: Next_def i1_def)
        have e1: "Error i1 = None" using Nil.prems(1) by (simp add: Error_def i1_def)
        have it: "PageIterator_Items i1 = PaginatedResponse.Items r"
          by (simp add: PageIterator_Items_def i1_def)
        have "AllItems_loop i s acc = AllItems_loop i1 s' (acc @ PaginatedResponse.Items r)"
          by (subst AllItems_loop.simps) (simp add: nx it)
        also have "\<dots> = Some (Inr (acc @ PaginatedResponse.Items r, i1, s'))"
          by (subst AllItems_loop.simps) (simp add: nx1)
        finally show ?thesis using a eN Some e1 by simp
      qed
    qed
  qed
next
  case (Cons r rs)
  obtain a1 s1 where c: "client i s (Page (pagination i)) (PerPage (pagination i)) = (a1, s1)"
    by (cases "client i s (Page (pagination i)) (PerPage (pagination i))")
  obtain as sf where t: "answers (client i) s1 (Page (pagination i) + 1) (PerPage (pagination i)) (Suc (length rs)) = (as, sf)"
    by (cases "answers (client i) s1 (Page (pagination i) + 1) (PerPage (pagination i)) (Suc (length rs))")
  from Cons.prems(3) c t have a1: "a1 = (Some r, None)"
    and rest: "answers (client i) s1 (Page (pagination i) + 1) (PerPage (pagination i)) (Suc (length rs)) =
           (map (\<lambda>r. (Some r, None)) rs @ [a], s')"
    by simp_all
  from Cons.prems(4) have r: "PaginatedResponse.HasMoreItems r" "PaginatedResponse.Items r \<noteq> []"
    and good: "\<forall>r\<in>set rs. PaginatedResponse.HasMoreItems r \<and> PaginatedResponse.Items r \<noteq> []"
    by simp_all
  define i1 where "i1 = i\<lparr>currentResponse := Some r,
                  pagination := (pagination i)\<lparr>Page := Page (pagination i) + 1\<rparr>\<rparr>"
  have nx: "Next i s = Inr (True, i1, s1)"
    using Cons.prems(1,2) c a1 r by (auto simp add: Next_def i1_def)
  have step: "AllItems_loop i s acc = AllItems_loop i1 s1 (acc @ PaginatedResponse.Items r)"
    by (subst AllItems_loop.simps) (simp add: nx PageIterator_Items_def i1_def)
  have p1: "err i1 = None" using Cons.prems(1) by (simp add: i1_def)
  have p2: "currentResponse i1 = None \<or>
         (\<exists>r0. currentResponse i1 = Some r0 \<and> PaginatedResponse.HasMoreItems r0)"
    using r by (simp add: i1_def)
  have p3: "answers (client i1) s1 (Page (pagination i1)) (PerPage (pagination i1)) (Suc (length rs)) =
           (map (\<lambda>r. (Some r, None)) rs @ [a], s')"
    using rest by (simp add: i1_def)
  from Cons.IH [OF p1 p2 p3 good Cons.prems(5), of "acc @ PaginatedResponse.Items r"] step
  show ?case by (cases "fst a"; cases "snd a") auto
qed

lemma AllItems_loop_returns_shape:
  assumes "AllItems_loop (i :: ('a, 's) PageIterator) s acc = Some res"
  shows "err i = None \<longrightarrow>
         (currentResponse i = None \<or>
            (\<exists>r0. currentResponse i = Some r0 \<and> PaginatedResponse.HasMoreItems r0)) \<longrightarrow>
         (\<exists>rs a s'.
            answers (client i) s (Page (pagination i)) (PerPage (pagination i)) (Suc (length rs)) =
              (map (\<lambda>r. (Some r, None)) rs @ [a], s') \<and>
            (\<forall>r\<in>set rs. PaginatedResponse.HasMoreItems r \<and> PaginatedResponse.Items r \<noteq> []) \<and>
            (\<forall>r. a = (Some r, None) \<longrightarrow>
               \<not> PaginatedResponse.HasMoreItems r \<or> PaginatedResponse.Items r = []))"
proof -
  define P where "P = (\<lambda>(i :: ('a, 's) PageIterator) (s :: 's) (acc :: 'a list)
      (res :: panic + ('a list \<times> ('a, 's) PageIterator \<times> 's)).
         err i = None \<longrightarrow>
         (currentResponse i = None \<or>
            (\<exists>r0. currentResponse i = Some r0 \<and> PaginatedResponse.HasMoreItems r0)) \<longrightarrow>
         (\<exists>rs a s'.
            answers (client i) s (Page (pagination i)) (PerPage (pagination i)) (Suc (length rs)) =
              (map (\<lambda>r. (Some r, None)) rs @ [a], s') \<and>
            (\<forall>r\<in>set rs. PaginatedResponse.HasMoreItems r \<and> PaginatedResponse.Items r \<noteq> []) \<and>
            (\<forall>r. a = (Some r, None) \<longrightarrow>
               \<not> PaginatedResponse.HasMoreItems r \<or> PaginatedResponse.Items r = [])))"
  have "P i s acc res"
  proof (rule AllItems_loop.raw_induct [where P = P, OF _ assms])
    fix loop :: "('a, 's) PageIterator \<Rightarrow> 's \<Rightarrow> 'a list
                   \<Rightarrow> (panic + ('a list \<times> ('a, 's) PageIterator \<times> 's)) option"
      and i :: "('a, 's) PageIterator" and s :: 's and acc :: "'a list"
      and res :: "panic + ('a list \<times> ('a, 's) PageIterator \<times> 's)"
    assume IH: "\<And>i s acc res. loop i s acc = Some res \<Longrightarrow> P i s acc res"
      and step: "(case Next i s of
                    Inl p \<Rightarrow> Some (Inl p)
                  | Inr (again, i', s') \<Rightarrow>
                      if again then loop i' s' (acc @ PageIterator_Items i')
                      else Some (Inr (acc, i', s'))) = Some res"
    show "P i s acc res"
      unfolding P_def
    proof (intro impI)
      assume e: "err i = None"
        and nt: "currentResponse i = None \<or>
              (\<exists>r0. currentResponse i = Some r0 \<and> PaginatedResponse.HasMoreItems r0)"
      obtain x ee s1 where
        c: "client i s (Page (pagination i)) (PerPage (pagination i)) = ((x, ee), s1)"
        by (cases "client i s (Page (pagination i)) (PerPage (pagination i))") auto
      have single:
        "answers (client i) s (Page (pagination i)) (PerPage (pagination i))
           (Suc (length ([] :: 'a PaginatedResponse list))) =
         (map (\<lambda>r. (Some r, None)) [] @ [(x, ee)], s1)"
        using c by simp
      show "\<exists>rs a s'.
              answers (client i) s (Page (pagination i)) (PerPage (pagination i)) (Suc (length rs)) =
                (map (\<lambda>r. (Some r, None)) rs @ [a], s') \<and>
              (\<forall>r\<in>set rs. PaginatedResponse.HasMoreItems r \<and> PaginatedResponse.Items r \<noteq> []) \<and>
              (\<forall>r. a = (Some r, None) \<longrightarrow>
                 \<not> PaginatedResponse.HasMoreItems r \<or> PaginatedResponse.Items r = [])"
      proof (cases "\<exists>r. x = Some r \<and> ee = None \<and> PaginatedResponse.HasMoreItems r \<and>
                        PaginatedResponse.Items r \<noteq> []")
        case False
        with single show ?thesis
          by (intro exI [of _ "[]"] exI [of _ "(x, ee)"] exI [of _ s1]) auto
      next
        case True
        then obtain r where x: "x = Some r" and ee: "ee = None"
          and r: "PaginatedResponse.HasMoreItems r" "PaginatedResponse.Items r \<noteq> []" by blast
        define i1 where "i1 = i\<lparr>currentResponse := Some r,
                    pagination := (pagination i)\<lparr>Page := Page (pagination i) + 1\<rparr>\<rparr>"
        have nx: "Next i s = Inr (True, i1, s1)"
          using e nt c x ee r by (auto simp add: Next_def i1_def)
        from step nx have run: "loop i1 s1 (acc @ PageIterator_Items i1) = Some res" by simp
        have "err i1 = None" using e by (simp add: i1_def)
        moreover have "currentResponse i1 = None \<or>
              (\<exists>r0. currentResponse i1 = Some r0 \<and> PaginatedResponse.HasMoreItems r0)"
          using r by (simp add: i1_def)
        ultimately obtain rs a s' where
          t: "answers (client i1) s1 (Page (pagination i1)) (PerPage (pagination i1))
                (Suc (length rs)) = (map (\<lambda>r. (Some r, None)) rs @ [a], s')"
          and good: "\<forall>r\<in>set rs. PaginatedResponse.HasMoreItems r \<and> PaginatedResponse.Items r \<noteq> []"
          and stop: "\<forall>r. a = (Some r, None) \<longrightarrow>
                 \<not> PaginatedResponse.HasMoreItems r \<or> PaginatedResponse.Items r = []"
          using IH [OF run] unfolding P_def by blast
        from t have t':
          "answers (client i) s1 (Page (pagination i) + 1) (PerPage (pagination i))
             (Suc (length rs)) = (map (\<lambda>r. (Some r, None)) rs @ [a], s')"
          by (simp add: i1_def)
        have "answers (client i) s (Page (pagination i)) (PerPage (pagination i))
                (Suc (length (r # rs))) = (map (\<lambda>r. (Some r, None)) (r # rs) @ [a], s')"
          using c x ee t'
          by (simp del: answers.simps add: answers.simps(2) [of _ _ _ _ "Suc (length rs)"])
        moreover have "\<forall>r'\<in>set (r # rs).
            PaginatedResponse.HasMoreItems r' \<and> PaginatedResponse.Items r' \<noteq> []"
          using r good by simp
        ultimately show ?thesis using stop by blast
      qed
    qed
  qed
  then show ?thesis unfolding P_def .
qed

text \<open>
  Every call of \<open>AllItems\<close> that returns or panics has met a run of answers of this
  shape: some pages that are not empty and announce more items, and then an answer that
  is an error, or no response at all, or a page that is empty or announces no more items.
\<close>

lemma AllItems_returns_shape:
  assumes "AllItems i s = Some res"
  shows "\<exists>rs a s'.
            answers (client i) s 1 (PerPage (pagination i)) (Suc (length rs)) =
              (map (\<lambda>r. (Some r, None)) rs @ [a], s') \<and>
            (\<forall>r\<in>set rs. PaginatedResponse.HasMoreItems r \<and> PaginatedResponse.Items r \<noteq> []) \<and>
            (\<forall>r. a = (Some r, None) \<longrightarrow>
               \<not> PaginatedResponse.HasMoreItems r \<or> PaginatedResponse.Items r = [])"
proof -
  from assms obtain res' where l: "AllItems_loop (Reset i) s [] = Some res'"
    by (cases "AllItems_loop (Reset i) s []") (auto simp add: AllItems_def)
  from AllItems_loop_returns_shape [OF l] show ?thesis
    by (simp add: Reset_def DefaultPage_def)
qed

text \<open>
  Claim C4, as amended. \<open>AllItems\<close> resets the iterator and asks for the pages 1, 2, ...
  in turn. Let the fetch function answer with the pages \<open>rs\<close>, none of them empty and each
  announcing more items, and then with \<open>a\<close>. If \<open>a\<close> carries an error, \<open>AllItems\<close> returns
  no items and that error, whatever \<open>rs\<close> held. If \<open>a\<close> is neither a response nor an error,
  it panics. If \<open>a\<close> is a page that is empty or announces no more items, it returns the
  items of \<open>rs\<close> and of that page, in order, and no error. The listing thus ends without
  error at the first empty page as well as at the first page that announces no more
  items.
\<close>

theorem AllItems_all_or_nothing:
  assumes "answers (client i) s 1 (PerPage (pagination i)) (Suc (length rs)) =
             (map (\<lambda>r. (Some r, None)) rs @ [a], s')"
    and "\<forall>r\<in>set rs. PaginatedResponse.HasMoreItems r \<and> PaginatedResponse.Items r \<noteq> []"
    and "\<forall>r. a = (Some r, None) \<longrightarrow>
           \<not> PaginatedResponse.HasMoreItems r \<or> PaginatedResponse.Items r = []"
  shows "map_option (map_sum id fst) (AllItems i s) =
           Some (if snd a \<noteq> None then Inr ([], snd a)
                 else (case fst a of
                         None \<Rightarrow> Inl NilPointerDereference
                       | Some r \<Rightarrow>
                           Inr (concat (map PaginatedResponse.Items rs) @
                                  PaginatedResponse.Items r, None)))"
proof -
  have p1: "err (Reset i) = None" by (simp add: Reset_def)
  have p2: "currentResponse (Reset i) = None \<or>
         (\<exists>r0. currentResponse (Reset i) = Some r0 \<and> PaginatedResponse.HasMoreItems r0)"
    by (simp add: Reset_def)
  have p3: "answers (client (Reset i)) s (Page (pagination (Reset i)))
              (PerPage (pagination (Reset i))) (Suc (length rs)) =
             (map (\<lambda>r. (Some r, None)) rs @ [a], s')"
    using assms(1) by (simp add: Reset_def DefaultPage_def)
  note run = AllItems_loop_run [OF p1 p2 p3 assms(2) assms(3), of "[]"]
  show ?thesis
  proof (cases "AllItems_loop (Reset i) s []")
    case None
    with run show ?thesis by simp
  next
    case (Some res)
    show ?thesis
    proof (cases res)
      case (Inl p)
      with Some run show ?thesis
        by (auto simp add: AllItems_def split: if_splits option.splits)
    next
      case (Inr t)
      obtain xs i' s'' where t: "t = (xs, i', s'')" by (cases t)
      with Some Inr run show ?thesis
        by (auto simp add: AllItems_def split: if_splits option.splits)
    qed
  qed
qed

theorem AllItems_all_or_nothing_witness:
  "answers (clientFn (take 2 mockPages)) () 1 2 (Suc (length (take 2 mockPages))) =
     (map (\<lambda>r. (Some r, None)) (take 2 mockPages) @
        [(None, Some (ErrorString ''page out of range''))], ()) \<and>
   take 2 mockPages = [mockPages ! 0, mockPages ! 1] \<and>
   PaginatedResponse.HasMoreItems (mockPages ! 0) \<and>
   PaginatedResponse.Items (mockPages ! 0) \<noteq> [] \<and>
   PaginatedResponse.HasMoreItems (mockPages ! 1) \<and>
   PaginatedResponse.Items (mockPages ! 1) \<noteq> [] \<and>
   map_option (map_sum id fst)
     (AllItems (NewPageIterator (clientFn (take 2 mockPages)) 1 2) ()) =
     Some (Inr ([], Some (ErrorString ''page out of range'')))"
proof -
  have h1: "answers (clientFn (take 2 mockPages)) () 1 2 (Suc (length (take 2 mockPages))) =
     (map (\<lambda>r. (Some r, None)) (take 2 mockPages) @
        [(None, Some (ErrorString ''page out of range''))], ())"
    by (simp add: clientFn_def mockPages_def word_sless_alt)
  have h2: "\<forall>r\<in>set (take 2 mockPages).
      PaginatedResponse.HasMoreItems r \<and> PaginatedResponse.Items r \<noteq> []"
    by (simp add: mockPages_def)
  have h3: "\<forall>r. (None, Some (ErrorString ''page out of range'')) = (Some r, None) \<longrightarrow>
      \<not> PaginatedResponse.HasMoreItems r \<or> PaginatedResponse.Items (r :: mockItem PaginatedResponse) = []"
    by simp
  have h1': "answers (client (NewPageIterator (clientFn (take 2 mockPages)) 1 2)) () 1
       (PerPage (pagination (NewPageIterator (clientFn (take 2 mockPages)) 1 2)))
       (Suc (length (take 2 mockPages))) =
     (map (\<lambda>r. (Some r, None)) (take 2 mockPages) @
        [(None, Some (ErrorString ''page out of range''))], ())"
    using h1 by (simp add: NewPageIterator_1_2)
  have h4: "take 2 mockPages = [mockPages ! 0, mockPages ! 1] \<and>
      PaginatedResponse.HasMoreItems (mockPages ! 0) \<and>
      PaginatedResponse.Items (mockPages ! 0) \<noteq> [] \<and>
      PaginatedResponse.HasMoreItems (mockPages ! 1) \<and>
      PaginatedResponse.Items (mockPages ! 1) \<noteq> []"
    by (simp add: mockPages_def)
  from AllItems_all_or_nothing [OF h1' h2 h3] h1 h4 show ?thesis by simp
qed

theorem AllItems_truncated_without_error:
  "map_option (map_sum id fst) (AllItems (NewPageIterator (clientFn gapPages) 1 2) ()) =
     Some (Inr ([1], None)) \<and>
   clientFn gapPages () 3 2 =
     ((Some \<lparr>Items = [2], CurrentPage = 3, TotalItems = 2, HasMoreItems = False\<rparr>, None), ())"
proof -
  have c1: "clientFn gapPages () 1 2 =
     ((Some \<lparr>Items = [1], CurrentPage = 1, TotalItems = 2, HasMoreItems = True\<rparr>, None), ())"
    by (simp add: clientFn_def gapPages_def word_sless_alt)
  have c2: "clientFn gapPages () 2 2 =
     ((Some \<lparr>Items = [], CurrentPage = 2, TotalItems = 2, HasMoreItems = True\<rparr>, None), ())"
    by (simp add: clientFn_def gapPages_def word_sless_alt)
  have c3: "clientFn gapPages () 3 2 =
     ((Some \<lparr>Items = [2], CurrentPage = 3, TotalItems = 2, HasMoreItems = False\<rparr>, None), ())"
    by (simp add: clientFn_def gapPages_def word_sless_alt)
  have all: "map_option (map_sum id fst) (AllItems (NewPageIterator (clientFn gapPages) 1 2) ()) =
     Some (Inr ([1], None))"
    by (simp add: AllItems_def AllItems_loop.simps Reset_def DefaultPage_def PageIterator_Items_def
        NewPageIterator_1_2 Next_def Error_def c1 c2)
  from all c3 show ?thesis by (rule conjI)
qed

subsection \<open>The bounds of the cursor\<close>

lemma Next_PerPage:
  "Next i s = Inr (b, i', s') \<Longrightarrow> PerPage (pagination i') = PerPage (pagination i)"
  by (auto simp add: Next_def Let_def split: if_splits prod.splits option.splits)

lemma Next_Page:
  "Next i s = Inr (b, i', s') \<Longrightarrow>
   Page (pagination i') = Page (pagination i) \<or> Page (pagination i') = Page (pagination i) + 1"
  by (auto simp add: Next_def Let_def split: if_splits prod.splits option.splits)

text \<open>
  Claim C10, as amended. After \<open>NewPageIterator\<close> the cursor has page at least 1 and a
  page size from 1 to 1000; \<open>Reset\<close> sets the page to 1 and keeps the page size; \<open>Next\<close>
  keeps the page size, and keeps the page at least 1 when the page was below the largest
  \<open>int\<close>, \<open>2 ^ 63 - 1\<close>, before the call.
\<close>

theorem cursor_invariant:
  "1 \<le> sint (Page (pagination (NewPageIterator c page perPage))) \<and>
   1 \<le> sint (PerPage (pagination (NewPageIterator c page perPage))) \<and>
   sint (PerPage (pagination (NewPageIterator c page perPage))) \<le> 1000 \<and>
   Page (pagination (Reset i)) = 1 \<and>
   PerPage (pagination (Reset i)) = PerPage (pagination i) \<and>
   (Next i s = Inr (b, i', s') \<longrightarrow>
      PerPage (pagination i') = PerPage (pagination i) \<and>
      (1 \<le> sint (Page (pagination i)) \<and> sint (Page (pagination i)) < 2 ^ 63 - 1 \<longrightarrow>
         1 \<le> sint (Page (pagination i'))))"
proof (intro conjI impI)
  show "1 \<le> sint (Page (pagination (NewPageIterator c page perPage)))"
    by (simp add: NewPageIterator_def NewPagination_def WithPage_def WithPerPage_def
        DefaultPage_def Let_def word_sless_alt)
  show "1 \<le> sint (PerPage (pagination (NewPageIterator c page perPage)))"
    by (simp add: NewPageIterator_def NewPagination_def WithPage_def WithPerPage_def
        DefaultPerPage_def MaxPerPage_def Let_def word_sless_alt)
  show "sint (PerPage (pagination (NewPageIterator c page perPage))) \<le> 1000"
    by (simp add: NewPageIterator_def NewPagination_def WithPage_def WithPerPage_def
        DefaultPerPage_def MaxPerPage_def Let_def word_sless_alt)
  show "Page (pagination (Reset i)) = 1" by (simp add: Reset_def DefaultPage_def)
  show "PerPage (pagination (Reset i)) = PerPage (pagination i)" by (simp add: Reset_def)
next
  assume "Next i s = Inr (b, i', s')"
  then show "PerPage (pagination i') = PerPage (pagination i)" by (rule Next_PerPage)
next
  assume n: "Next i s = Inr (b, i', s')"
    and p: "1 \<le> sint (Page (pagination i)) \<and> sint (Page (pagination i)) < 2 ^ 63 - 1"
  from Next_Page [OF n] show "1 \<le> sint (Page (pagination i'))"
  proof
    assume "Page (pagination i') = Page (pagination i)"
    with p show ?thesis by simp
  next
    assume "Page (pagination i') = Page (pagination i) + 1"
    with p sint_succ_64 [of "Page (pagination i)"] show ?thesis by simp
  qed
qed

theorem cursor_invariant_witness:
  "Next (NewPageIterator (clientFn mockPages) 1 2) () =
     Inr (True,
          \<lparr>client = clientFn mockPages, pagination = \<lparr>Page = 2, PerPage = 2\<rparr>,
           currentResponse = Some (mockPages ! 0), err = None\<rparr>, ()) \<and>
   1 \<le> sint (Page (pagination (NewPageIterator (clientFn mockPages) 1 2))) \<and>
   sint (Page (pagination (NewPageIterator (clientFn mockPages) 1 2))) < 2 ^ 63 - 1 \<and>
   1 \<le> sint (Page \<lparr>Page = 2, PerPage = 2\<rparr>) \<and>
   PerPage \<lparr>Page = 2, PerPage = 2\<rparr> =
     PerPage (pagination (NewPageIterator (clientFn mockPages) 1 2))"
proof -
  have nx: "Next (NewPageIterator (clientFn mockPages) 1 2) () =
     Inr (True,
          \<lparr>client = clientFn mockPages, pagination = \<lparr>Page = 2, PerPage = 2\<rparr>,
           currentResponse = Some (mockPages ! 0), err = None\<rparr>, ())"
    by (simp add: NewPageIterator_1_2 Next_def clientFn_def mockPages_def word_sless_alt)
  have p: "1 \<le> sint (Page (pagination (NewPageIterator (clientFn mockPages) 1 2))) \<and>
      sint (Page (pagination (NewPageIterator (clientFn mockPages) 1 2))) < 2 ^ 63 - 1"
    by (simp add: NewPageIterator_1_2)
  from cursor_invariant
         [of "clientFn mockPages" 1 2 "NewPageIterator (clientFn mockPages) 1 2" "()" True
             "\<lparr>client = clientFn mockPages, pagination = \<lparr>Page = 2, PerPage = 2\<rparr>,
               currentResponse = Some (mockPages ! 0), err = None\<rparr>" "()"]
       nx p
  show ?thesis by simp
qed

text \<open>
  An iterator made at the largest page number: one successful \<open>Next\<close> wraps the cursor
  round to the smallest \<open>int\<close>.
\<close>

theorem cursor_overflow:
  "Next (NewPageIterator
           (samePageFn \<lparr>Items = [0::nat], CurrentPage = 1, TotalItems = 1, HasMoreItems = True\<rparr>)
           9223372036854775807 2) () =
     Inr (True,
          \<lparr>client = samePageFn
                      \<lparr>Items = [0::nat], CurrentPage = 1, TotalItems = 1, HasMoreItems = True\<rparr>,
           pagination = \<lparr>Page = - 9223372036854775808, PerPage = 2\<rparr>,
           currentResponse =
             Some \<lparr>Items = [0], CurrentPage = 1, TotalItems = 1, HasMoreItems = True\<rparr>,
           err = None\<rparr>, ()) \<and>
   \<not> 1 \<le> sint (Page \<lparr>Page = - 9223372036854775808, PerPage = 2\<rparr>)"
  by (simp add: Next_def NewPageIterator_def NewPagination_def WithPage_def WithPerPage_def
      DefaultPage_def DefaultPerPage_def MaxPerPage_def word_sless_alt samePageFn_def)

section \<open>Error responses\<close>

lemma ParseErrorResponse_status_outside_2xx:
  "\<not> (200 \<le> sint (Response.StatusCode resp) \<and> sint (Response.StatusCode resp) < 300) \<Longrightarrow>
   ParseErrorResponse decode resp \<noteq> None"
  by (auto simp add: ParseErrorResponse_def word_sle_eq word_sless_alt Let_def split: prod.splits option.splits)

lemma fmt_d_500: "fmt_d 500 = ''500''"
  by code_simp

text \<open>
  Claim C7, as amended. For a response with status 400 or more whose body the decoder
  rejects, \<open>ParseErrorResponse\<close> returns the plain error of \<open>fmt.Errorf\<close> with the message
  \<open>bunnynet API error: status code\<close> followed by the status in decimal: a value that is
  neither a \<open>ClientError\<close> nor an \<open>ErrorResponse\<close>, and that holds nothing of the decoder's
  error.
\<close>

theorem ParseErrorResponse_undecodable:
  assumes "400 \<le> sint (Response.StatusCode resp)"
    and "snd (decode (Body resp)
               \<lparr>ErrorKey = [], Field = [], Message = [],
                StatusCode = Response.StatusCode resp\<rparr>) = Some e"
  shows "ParseErrorResponse decode resp =
           Some (ErrorString
             (''bunnynet API error: status code '' @ fmt_d (Response.StatusCode resp)))"
  using assms
  by (auto simp add: ParseErrorResponse_def word_sle_eq word_sless_alt Let_def split: prod.splits option.splits)

theorem ParseErrorResponse_undecodable_witness:
  "400 \<le> sint (500 :: go_int) \<and>
   snd (stubDecode ''Internal Server Error''
         \<lparr>ErrorKey = [], Field = [], Message = [], StatusCode = 500\<rparr>) =
     Some (ForeignError ''invalid character'') \<and>
   ParseErrorResponse stubDecode \<lparr>StatusCode = 500, Body = ''Internal Server Error''\<rparr> =
     Some (ErrorString ''bunnynet API error: status code 500'')"
  using ParseErrorResponse_undecodable
          [of "\<lparr>StatusCode = 500, Body = ''Internal Server Error''\<rparr>" stubDecode
              "ForeignError ''invalid character''"]
  by (simp add: stubDecode_def fmt_d_500)

text \<open>
  Status 500 with a body that is not JSON: the error returned is not a \<open>ClientError\<close>.
\<close>

theorem ParseErrorResponse_not_ClientError:
  "ParseErrorResponse stubDecode \<lparr>StatusCode = 500, Body = ''Internal Server Error''\<rparr> =
     Some (ErrorString ''bunnynet API error: status code 500'') \<and>
   \<not> is_ClientError
        (the (ParseErrorResponse stubDecode
                \<lparr>StatusCode = 500, Body = ''Internal Server Error''\<rparr>))"
  by (simp add: ParseErrorResponse_def stubDecode_def word_sle_eq word_sless_alt fmt_d_500)

section \<open>Parsing responses\<close>

text \<open>
  Claim C8. \<open>ParsePaginatedResponse\<close> does not look at the status code: its result is
  the same under any status, and under any status a body that is read and decoded
  without error is the result, so it reads and decodes the body under status 204 and
  under a status of 400 or more too. \<open>ParseResponse\<close> returns at once, the target
  untouched, under status 204, and returns the parsed error response under a status of
  400 or more. For a response with status 400 or more \<open>DoRequest\<close> returns an error,
  and \<open>ListPaginated\<close> returns that error without reaching the decode.
\<close>

theorem paginated_decode_skips_status_checks:
  "ParsePaginatedResponse readAll unmarshal (resp\<lparr>StatusCode := code\<rparr>) v =
     ParsePaginatedResponse readAll unmarshal resp v \<and>
   (readAll (Body resp) = Inr body \<and> unmarshal body v = (v', None) \<longrightarrow>
      ParsePaginatedResponse readAll unmarshal (resp\<lparr>StatusCode := code\<rparr>) v = (None, v')) \<and>
   ParseResponse decode readAll unmarshal' (resp\<lparr>StatusCode := 204\<rparr>) target = (None, target) \<and>
   (400 \<le> sint code \<longrightarrow>
      ParseResponse decode readAll unmarshal' (resp\<lparr>StatusCode := code\<rparr>) (Some x) =
        (ParseErrorResponse decode (resp\<lparr>StatusCode := code\<rparr>), Some x)) \<and>
   (400 \<le> sint (Response.StatusCode resp) \<and> do req = Inr resp \<longrightarrow>
      DoRequest decode do req = (Some resp, ParseErrorResponse decode resp) \<and>
      ParseErrorResponse decode resp \<noteq> None \<and>
      ListPaginated_send decode readAll unmarshal do req =
        Inr (None, ParseErrorResponse decode resp))"
proof (intro conjI impI)
  show "ParsePaginatedResponse readAll unmarshal (resp\<lparr>StatusCode := code\<rparr>) v =
     ParsePaginatedResponse readAll unmarshal resp v"
    by (simp add: ParsePaginatedResponse_def)
  show "ParseResponse decode readAll unmarshal' (resp\<lparr>StatusCode := 204\<rparr>) target = (None, target)"
    by (simp add: ParseResponse_def StatusNoContent_def)
next
  assume "readAll (Body resp) = Inr body \<and> unmarshal body v = (v', None)"
  then show "ParsePaginatedResponse readAll unmarshal (resp\<lparr>StatusCode := code\<rparr>) v = (None, v')"
    by (simp add: ParsePaginatedResponse_def)
next
  assume c: "400 \<le> sint code"
  then have "code \<noteq> 204" by auto
  with c show "ParseResponse decode readAll unmarshal' (resp\<lparr>StatusCode := code\<rparr>) (Some x) =
        (ParseErrorResponse decode (resp\<lparr>StatusCode := code\<rparr>), Some x)"
    by (simp add: ParseResponse_def StatusNoContent_def word_sle_eq)
next
  assume a: "400 \<le> sint (Response.StatusCode resp) \<and> do req = Inr resp"
  then show d: "DoRequest decode do req = (Some resp, ParseErrorResponse decode resp)"
    by (simp add: DoRequest_def word_sle_eq)
  from a show n: "ParseErrorResponse decode resp \<noteq> None"
    by (intro ParseErrorResponse_status_outside_2xx) simp
  from d n show "ListPaginated_send decode readAll unmarshal do req =
        Inr (None, ParseErrorResponse decode resp)"
    by (auto simp add: ListPaginated_send_def)
qed

theorem paginated_decode_skips_status_checks_witness:
  "400 \<le> sint (404 :: go_int) \<and>
   DoRequest stubDecode (\<lambda>req. Inr \<lparr>StatusCode = 404, Body = ''{}''\<rparr>) () =
     (Some \<lparr>StatusCode = 404, Body = ''{}''\<rparr>,
      Some (RemoteError \<lparr>ErrorKey = [], Field = [], Message = [], StatusCode = 404\<rparr>)) \<and>
   ListPaginated_send stubDecode Inr (\<lambda>body v. (v :: nat PaginatedResponse, None))
       (\<lambda>req. Inr \<lparr>StatusCode = 404, Body = ''{}''\<rparr>) () =
     Inr (None,
          Some (RemoteError \<lparr>ErrorKey = [], Field = [], Message = [], StatusCode = 404\<rparr>)) \<and>
   ParseResponse stubDecode Inr (\<lambda>body v. (v :: nat, None))
       \<lparr>StatusCode = 404, Body = ''{}''\<rparr> (Some 0) =
     (Some (RemoteError \<lparr>ErrorKey = [], Field = [], Message = [], StatusCode = 404\<rparr>), Some 0) \<and>
   ParsePaginatedResponse Inr (\<lambda>body v. (v :: nat PaginatedResponse, None))
       \<lparr>StatusCode = 404, Body = ''{}''\<rparr>
       \<lparr>Items = [], CurrentPage = 0, TotalItems = 0, HasMoreItems = False\<rparr> =
     (None, \<lparr>Items = [], CurrentPage = 0, TotalItems = 0, HasMoreItems = False\<rparr>)"
proof -
  have pe: "ParseErrorResponse stubDecode \<lparr>StatusCode = 404, Body = ''{}''\<rparr> =
      Some (RemoteError \<lparr>ErrorKey = [], Field = [], Message = [], StatusCode = 404\<rparr>)"
    by (simp add: ParseErrorResponse_def stubDecode_def word_sle_eq word_sless_alt)
  have pp: "ParsePaginatedResponse Inr (\<lambda>body v. (v :: nat PaginatedResponse, None))
       \<lparr>StatusCode = 404, Body = ''{}''\<rparr>
       \<lparr>Items = [], CurrentPage = 0, TotalItems = 0, HasMoreItems = False\<rparr> =
     (None, \<lparr>Items = [], CurrentPage = 0, TotalItems = 0, HasMoreItems = False\<rparr>)"
    by (simp add: ParsePaginatedResponse_def)
  from paginated_decode_skips_status_checks
         [where resp = "\<lparr>StatusCode = 404, Body = ''{}''\<rparr>" and code = 404
            and decode = stubDecode and readAll = Inr
            and unmarshal = "\<lambda>body v. (v :: nat PaginatedResponse, None)"
            and unmarshal' = "\<lambda>body v. (v :: nat, None)"
            and v = "\<lparr>Items = [], CurrentPage = 0, TotalItems = 0, HasMoreItems = False\<rparr>"
            and v' = "\<lparr>Items = [], CurrentPage = 0, TotalItems = 0, HasMoreItems = False\<rparr>"
            and body = "''{}''"
            and x = 0 and do = "\<lambda>req. Inr \<lparr>StatusCode = 404, Body = ''{}''\<rparr>" and req = "()"]
       pe pp
  show ?thesis by simp
qed

section \<open>Building requests\<close>

text \<open>
  Claim C9. A request that \<open>NewRequest\<close> returns has the header \<open>Accept\<close> set to
  \<open>application/json\<close>; it has the header \<open>Content-Type\<close>, set to \<open>application/json\<close>,
  exactly when a body is given and the method is POST, PUT or PATCH, and exactly then it
  has a payload, the JSON encoding of the body; it has the header \<open>AccessKey\<close>, set to the
  API key, exactly when the key is not empty, and the header \<open>User-Agent\<close>, set to the user
  agent, exactly when that is not empty.
\<close>

theorem NewRequest_headers:
  assumes "NewRequest lib method baseURL path body apiKey userAgent = Inr req"
  shows "Header req ''Accept'' = Some ''application/json'' \<and>
         Header req ''Content-Type'' =
           (if body \<noteq> None \<and> method \<in> {''POST'', ''PUT'', ''PATCH''}
            then Some ''application/json'' else None) \<and>
         (case Payload req of
            Some bytes \<Rightarrow> body \<noteq> None \<and> method \<in> {''POST'', ''PUT'', ''PATCH''} \<and>
                          json_Encode lib (the body) = Inr bytes
          | None \<Rightarrow> \<not> (body \<noteq> None \<and> method \<in> {''POST'', ''PUT'', ''PATCH''})) \<and>
         Header req ''AccessKey'' = (if apiKey \<noteq> [] then Some apiKey else None) \<and>
         Header req ''User-Agent'' = (if userAgent \<noteq> [] then Some userAgent else None)"
  using assms
  by (auto simp add: NewRequest_def http_NewRequest_def Header_Set_def Let_def MethodPost_def MethodPut_def MethodPatch_def
      split: sum.splits option.splits if_splits)

theorem NewRequest_headers_witness:
  "NewRequest testlib ''POST'' ''https://api.bunny.net'' ''/pullzone'' (Some ''{}'') ''key'' [] =
     Inr \<lparr>Method = ''POST'', URL = ''https://api.bunny.net/pullzone'',
          Payload = Some (''{}'' @ [CHR 0x0A]),
          Header = [''Accept'' \<mapsto> ''application/json'',
                    ''Content-Type'' \<mapsto> ''application/json'',
                    ''AccessKey'' \<mapsto> ''key'']\<rparr> \<and>
   Header \<lparr>Method = ''POST'', URL = ''https://api.bunny.net/pullzone'',
          Payload = Some (''{}'' @ [CHR 0x0A]),
          Header = [''Accept'' \<mapsto> ''application/json'',
                    ''Content-Type'' \<mapsto> ''application/json'',
                    ''AccessKey'' \<mapsto> ''key'']\<rparr> ''User-Agent'' = None"
proof -
  have run: "NewRequest testlib ''POST'' ''https://api.bunny.net'' ''/pullzone'' (Some ''{}'') ''key'' [] =
     Inr \<lparr>Method = ''POST'', URL = ''https://api.bunny.net/pullzone'',
          Payload = Some (''{}'' @ [CHR 0x0A]),
          Header = [''Accept'' \<mapsto> ''application/json'',
                    ''Content-Type'' \<mapsto> ''application/json'',
                    ''AccessKey'' \<mapsto> ''key'']\<rparr>"
    by (simp add: NewRequest_def http_NewRequest_def Header_Set_def testlib_def MethodPost_def)
  from NewRequest_headers [OF run] run show ?thesis by simp
qed

end
